theory Spec2Isabelle
  imports Complex_Main "HOL-Library.Product_Lexorder" "HOL-Library.Multiset"
begin

section \<open>Python strings\<close>

text \<open>
  Strings are \<^typ>\<open>string\<close>; the predicates below are Python's \<^verbatim>\<open>str\<close> methods
  restricted to ASCII. A character above 127 is taken to be neither a letter, a digit
  nor white space, and \<open>upper\<close>/\<open>lower\<close> leave it alone.
\<close>

definition isspace :: "char \<Rightarrow> bool" where
  "isspace c = (let n = (of_char c :: nat) in (9 \<le> n \<and> n \<le> 13) \<or> (28 \<le> n \<and> n \<le> 32))"

definition isupper :: "char \<Rightarrow> bool" where
  "isupper c = (let n = (of_char c :: nat) in 65 \<le> n \<and> n \<le> 90)"

definition islower :: "char \<Rightarrow> bool" where
  "islower c = (let n = (of_char c :: nat) in 97 \<le> n \<and> n \<le> 122)"

definition isdigit :: "char \<Rightarrow> bool" where
  "isdigit c = (let n = (of_char c :: nat) in 48 \<le> n \<and> n \<le> 57)"

definition isalpha :: "char \<Rightarrow> bool" where
  "isalpha c = (isupper c \<or> islower c)"

definition isalnum :: "char \<Rightarrow> bool" where
  "isalnum c = (isalpha c \<or> isdigit c)"

definition upper_char :: "char \<Rightarrow> char" where
  "upper_char c = (if islower c then char_of ((of_char c :: nat) - 32) else c)"

definition lower_char :: "char \<Rightarrow> char" where
  "lower_char c = (if isupper c then char_of ((of_char c :: nat) + 32) else c)"

definition upper :: "string \<Rightarrow> string" where
  "upper s = map upper_char s"

definition lower :: "string \<Rightarrow> string" where
  "lower s = map lower_char s"

definition strip :: "string \<Rightarrow> string" where
  "strip s = rev (dropWhile isspace (rev (dropWhile isspace s)))"

section \<open>Airline lookup\<close>

definition AIRLINE_PREFIXES :: "(string \<times> string) list" where
  "AIRLINE_PREFIXES =
    [(''DAL'', ''Delta''),
     (''AAL'', ''American''),
     (''UAL'', ''United''),
     (''SWA'', ''Southwest''),
     (''JBU'', ''JetBlue''),
     (''NKS'', ''Spirit''),
     (''FFT'', ''Frontier''),
     (''ASA'', ''Alaska''),
     (''RPA'', ''Republic''),
     (''SKW'', ''SkyWest''),
     (''ENY'', ''Envoy''),
     (''GJS'', ''GoJet''),
     (''EJA'', ''NetJets''),
     (''EJM'', ''Executive Jet Management''),
     (''UPS'', ''UPS''),
     (''FDX'', ''FedEx''),
     (''JIA'', ''PSA''),
     (''PDT'', ''Piedmont''),
     (''CPZ'', ''Compass''),
     (''N'', ''GA Aircraft''),
     (''EDV'', ''Endeavor''),
     (''CJT'', ''CargoJet'')]"

text \<open>
  The loop of \<^verbatim>\<open>get_airline_from_callsign\<close> that collects the leading letters:
  it stops at the first non-letter, and right after the third letter.
\<close>

fun prefix_loop :: "string \<Rightarrow> string \<Rightarrow> string" where
  "prefix_loop prefix [] = prefix"
| "prefix_loop prefix (ch # rest) =
     (if isalpha ch
      then (let prefix' = prefix @ [ch]
            in if length prefix' = 3 then prefix' else prefix_loop prefix' rest)
      else prefix)"

definition get_airline_from_callsign :: "string \<Rightarrow> string option" where
  "get_airline_from_callsign callsign =
     (if callsign = [] then None
      else
        let cs = upper (strip callsign) in
        if take 1 cs = ''N'' \<and> length cs \<ge> 2 \<and> isalnum (cs ! 1)
        then map_of AIRLINE_PREFIXES ''N''
        else
          let prefix = prefix_loop [] cs in
          if prefix = [] then None else map_of AIRLINE_PREFIXES prefix)"

section \<open>Geodesic calculator\<close>

text \<open>
  Python floats are idealised as \<^typ>\<open>real\<close>: rounding, infinities and NaN are outside
  the model. \<open>atan2\<close> is \<^verbatim>\<open>math.atan2\<close> (first argument the ordinate), and
  \<open>py_fmod\<close> is Python's \<^verbatim>\<open>%\<close> on floats for a positive divisor.
\<close>

definition radians :: "real \<Rightarrow> real" where
  "radians x = x * (pi / 180)"

definition degrees :: "real \<Rightarrow> real" where
  "degrees x = x * (180 / pi)"

definition atan2 :: "real \<Rightarrow> real \<Rightarrow> real" where
  "atan2 y x =
     (if 0 < x then arctan (y / x)
      else if x < 0 then (if 0 \<le> y then arctan (y / x) + pi else arctan (y / x) - pi)
      else if 0 < y then pi / 2
      else if y < 0 then - (pi / 2)
      else 0)"

definition py_fmod :: "real \<Rightarrow> real \<Rightarrow> real" where
  "py_fmod x y = x - y * of_int \<lfloor>x / y\<rfloor>"

definition haversine :: "real \<Rightarrow> real \<Rightarrow> real \<Rightarrow> real \<Rightarrow> real" where
  "haversine lat1 lon1 lat2 lon2 =
     (let R = 6371;
          dlat = radians (lat2 - lat1);
          dlon = radians (lon2 - lon1);
          a = (sin (dlat / 2))\<^sup>2
              + cos (radians lat1) * cos (radians lat2) * (sin (dlon / 2))\<^sup>2;
          c = 2 * atan2 (sqrt a) (sqrt (1 - a))
      in R * c)"

definition bearing :: "real \<Rightarrow> real \<Rightarrow> real \<Rightarrow> real \<Rightarrow> real" where
  "bearing lat1 lon1 lat2 lon2 =
     (let dlon = radians (lon2 - lon1);
          x = sin dlon * cos (radians lat2);
          y = cos (radians lat1) * sin (radians lat2)
              - sin (radians lat1) * cos (radians lat2) * cos dlon;
          b = atan2 x y
      in py_fmod (degrees b + 360) 360)"

section \<open>Decoded JSON and Python's dynamic operations on it\<close>

text \<open>
  A decoded JSON document, as \<^verbatim>\<open>Response.json()\<close> returns it. \<open>JNull\<close> is
  Python's \<^verbatim>\<open>None\<close>; an object is a \<^verbatim>\<open>dict\<close>, read through \<open>map_of\<close>.
\<close>

datatype json =
    JNull
  | JBool bool
  | JInt int
  | JFloat real
  | JStr string
  | JArr "json list"
  | JObj "(string \<times> json) list"

datatype py_error =
    AttributeError
  | TypeError
  | TransportError
  | HTTPStatusError
  | JSONDecodeError

text \<open>Truth value of a Python object, as \<^verbatim>\<open>if x\<close>, \<^verbatim>\<open>not x\<close> and \<^verbatim>\<open>x or y\<close> test it.\<close>

fun truthy :: "json \<Rightarrow> bool" where
  "truthy JNull = False"
| "truthy (JBool b) = b"
| "truthy (JInt i) = (i \<noteq> 0)"
| "truthy (JFloat r) = (r \<noteq> 0)"
| "truthy (JStr s) = (s \<noteq> [])"
| "truthy (JArr xs) = (xs \<noteq> [])"
| "truthy (JObj kvs) = (kvs \<noteq> [])"

text \<open>\<^verbatim>\<open>d.get(k)\<close> on a dict whose items are \<open>kvs\<close>.\<close>

definition dict_get :: "(string \<times> json) list \<Rightarrow> string \<Rightarrow> json" where
  "dict_get kvs k = (case map_of kvs k of None \<Rightarrow> JNull | Some v \<Rightarrow> v)"

text \<open>\<^verbatim>\<open>x.get(k)\<close> on any object: only a dict has the method.\<close>

definition py_get :: "json \<Rightarrow> string \<Rightarrow> py_error + json" where
  "py_get x k = (case x of JObj kvs \<Rightarrow> Inr (dict_get kvs k) | _ \<Rightarrow> Inl AttributeError)"

text \<open>\<^verbatim>\<open>x or {}\<close>.\<close>

definition or_empty :: "json \<Rightarrow> json" where
  "or_empty x = (if truthy x then x else JObj [])"

text \<open>\<^verbatim>\<open>for ac in x\<close>: a list gives its elements, a string its characters, a dict its keys.\<close>

definition py_iter :: "json \<Rightarrow> py_error + json list" where
  "py_iter x =
     (case x of
        JArr xs \<Rightarrow> Inr xs
      | JStr s \<Rightarrow> Inr (map (\<lambda>c. JStr [c]) s)
      | JObj kvs \<Rightarrow> Inr (map (\<lambda>kv. JStr (fst kv)) kvs)
      | _ \<Rightarrow> Inl TypeError)"

text \<open>\<^verbatim>\<open>isinstance(x, (int, float))\<close>; a Python \<^verbatim>\<open>bool\<close> is an \<^verbatim>\<open>int\<close>.\<close>

fun is_number :: "json \<Rightarrow> bool" where
  "is_number (JInt i) = True"
| "is_number (JFloat r) = True"
| "is_number (JBool b) = True"
| "is_number _ = False"

text \<open>The value of an object in float arithmetic; anything but a number raises.\<close>

fun as_float :: "json \<Rightarrow> py_error + real" where
  "as_float (JInt i) = Inr (of_int i)"
| "as_float (JFloat r) = Inr r"
| "as_float (JBool b) = Inr (if b then 1 else 0)"
| "as_float _ = Inl TypeError"

text \<open>\<^verbatim>\<open>float(x)\<close> on a number.\<close>

fun to_float :: "json \<Rightarrow> real" where
  "to_float (JInt i) = of_int i"
| "to_float (JFloat r) = r"
| "to_float (JBool b) = (if b then 1 else 0)"
| "to_float _ = 0"

text \<open>\<^verbatim>\<open>int(x)\<close> on a number truncates towards zero.\<close>

fun as_int :: "json \<Rightarrow> int" where
  "as_int (JInt i) = i"
| "as_int (JFloat r) = (if 0 \<le> r then \<lfloor>r\<rfloor> else \<lceil>r\<rceil>)"
| "as_int (JBool b) = (if b then 1 else 0)"
| "as_int _ = 0"

section \<open>Aircraft type lookup\<close>

fun get_aircraft_type_keys :: "(string \<times> json) list \<Rightarrow> string list \<Rightarrow> string option" where
  "get_aircraft_type_keys ac [] = None"
| "get_aircraft_type_keys ac (k # ks) =
     (case dict_get ac k of
        JStr val \<Rightarrow>
          (let val' = strip val
           in if val' \<noteq> [] \<and> lower val' \<noteq> ''adsb_icao'' then Some val'
              else get_aircraft_type_keys ac ks)
      | _ \<Rightarrow> get_aircraft_type_keys ac ks)"

definition get_aircraft_type :: "(string \<times> json) list \<Rightarrow> string option" where
  "get_aircraft_type ac = get_aircraft_type_keys ac [''t'', ''type'', ''icao_type'', ''mdl'']"

section \<open>Flight model and settings\<close>

record flight =
  callsign :: string
  airline :: "string option"
  origin :: "string option"
  destination :: "string option"
  aircraft_type :: "string option"
  altitude_ft :: "int option"
  distance_km :: "real option"
  bearing_deg :: "real option"
  gs :: "real option"
  baro_rate :: "int option"
  updated_at :: nat

text \<open>
  The configuration the fetcher reads: the default centre and radius are the values
  \<^verbatim>\<open>get_current_center\<close> and \<^verbatim>\<open>get_radius_km\<close> return.
\<close>

record settings =
  center_lat :: real
  center_lon :: real
  radius_km :: real
  route_lookup_enabled :: bool
  route_max_new_per_cycle :: int

definition get_current_center :: "settings \<Rightarrow> real \<times> real" where
  "get_current_center s = (center_lat s, center_lon s)"

definition get_radius_km :: "settings \<Rightarrow> real" where
  "get_radius_km s = radius_km s"

section \<open>The two HTTP providers\<close>

text \<open>
  What one \<^verbatim>\<open>client.get\<close> gives: an exception of the transport (time-out, refused
  connection), or a response with its status code and its body, \<open>None\<close> when the body
  does not decode as JSON. \<open>is_success\<close> is the test of \<^verbatim>\<open>raise_for_status\<close>.
\<close>

datatype http_reply =
    Transport_Error
  | Response nat "json option"

definition is_success :: "nat \<Rightarrow> bool" where
  "is_success status = (200 \<le> status \<and> status \<le> 299)"

section \<open>Route lookup cache\<close>

text \<open>
  \<open>route_cache\<close> is the module-level dict; \<open>new_count\<close> the counter of the running
  invocation; \<open>calls\<close> records, oldest first, the identifier of every request sent to
  the route provider. The provider is a function of the number of requests already sent
  and of the identifier asked for, so its answers may change over time.
\<close>

record enrich_state =
  route_cache :: "string \<rightharpoonup> (string option \<times> string option)"
  new_count :: int
  calls :: "string list"

type_synonym route_provider = "nat \<Rightarrow> string \<Rightarrow> http_reply"

datatype lookup_result =
    Not_Found
  | Route "string option" "string option"

fun pick_keys :: "(string \<times> json) list \<Rightarrow> string list \<Rightarrow> string option" where
  "pick_keys apt [] = None"
| "pick_keys apt (k # ks) =
     (case dict_get apt k of
        JStr val \<Rightarrow> (if strip val \<noteq> [] then Some (strip val) else pick_keys apt ks)
      | _ \<Rightarrow> pick_keys apt ks)"

definition pick :: "json \<Rightarrow> string option" where
  "pick apt =
     (case apt of
        JObj kvs \<Rightarrow> pick_keys kvs [''icao_code'', ''iata_code'', ''name'']
      | _ \<Rightarrow> None)"

text \<open>
  The body of the \<^verbatim>\<open>try\<close> block of \<^verbatim>\<open>enrich_routes_adsbdb\<close>, from the response
  to the pair it resolves; \<open>Inl\<close> is an exception, which the \<^verbatim>\<open>except\<close> clause catches.
\<close>

definition parse_route :: "json \<Rightarrow> py_error + lookup_result" where
  "parse_route body =
     (case py_get (or_empty body) ''response'' of
        Inl e \<Rightarrow> Inl e
      | Inr response \<Rightarrow>
          (case py_get (or_empty response) ''flightroute'' of
             Inl e \<Rightarrow> Inl e
           | Inr fr0 \<Rightarrow>
               (let fr = or_empty fr0
                in case py_get fr ''origin'' of
                     Inl e \<Rightarrow> Inl e
                   | Inr origin_obj \<Rightarrow>
                       (case py_get fr ''destination'' of
                          Inl e \<Rightarrow> Inl e
                        | Inr dest_obj \<Rightarrow>
                            Inr (Route (pick (or_empty origin_obj))
                                       (pick (or_empty dest_obj)))))))"

definition route_lookup :: "http_reply \<Rightarrow> py_error + lookup_result" where
  "route_lookup resp =
     (case resp of
        Transport_Error \<Rightarrow> Inl TransportError
      | Response status body \<Rightarrow>
          if status = 404 then Inr Not_Found
          else if \<not> is_success status then Inl HTTPStatusError
          else (case body of None \<Rightarrow> Inl JSONDecodeError | Some j \<Rightarrow> parse_route j))"

text \<open>\<^verbatim>\<open>f.origin or f.destination\<close>: an empty string counts as unset.\<close>

definition is_set :: "string option \<Rightarrow> bool" where
  "is_set x = (case x of None \<Rightarrow> False | Some s \<Rightarrow> s \<noteq> [])"

definition cache_key :: "flight \<Rightarrow> string" where
  "cache_key f = upper (strip (callsign f))"

text \<open>One iteration of the loop over the flights.\<close>

definition enrich_one ::
  "route_provider \<Rightarrow> int \<Rightarrow> flight \<Rightarrow> enrich_state \<Rightarrow> flight \<times> enrich_state" where
  "enrich_one client max_new f st =
     (if is_set (origin f) \<or> is_set (destination f) then (f, st)
      else
        let cs = cache_key f in
        if cs = [] then (f, st)
        else
          (case route_cache st cs of
             Some (org, dest) \<Rightarrow> (f\<lparr>origin := org, destination := dest\<rparr>, st)
           | None \<Rightarrow>
               if new_count st \<ge> max_new then (f, st)
               else
                 let resp = client (length (calls st)) cs;
                     st1 = st\<lparr>calls := calls st @ [cs]\<rparr>
                 in (case route_lookup resp of
                       Inl e \<Rightarrow> (f, st1)
                     | Inr Not_Found \<Rightarrow>
                         (f, st1\<lparr>route_cache := (route_cache st1)(cs \<mapsto> (None, None)),
                                 new_count := new_count st1 + 1\<rparr>)
                     | Inr (Route org dest) \<Rightarrow>
                         (f\<lparr>origin := org, destination := dest\<rparr>,
                          st1\<lparr>route_cache := (route_cache st1)(cs \<mapsto> (org, dest)),
                              new_count := new_count st1 + 1\<rparr>))))"

fun enrich_loop ::
  "route_provider \<Rightarrow> int \<Rightarrow> flight list \<Rightarrow> enrich_state \<Rightarrow> flight list \<times> enrich_state" where
  "enrich_loop client max_new [] st = ([], st)"
| "enrich_loop client max_new (f # fs) st =
     (let (f', st') = enrich_one client max_new f st;
          (fs', st'') = enrich_loop client max_new fs st'
      in (f' # fs', st''))"

definition enrich_routes_adsbdb ::
  "settings \<Rightarrow> route_provider \<Rightarrow> flight list \<Rightarrow> enrich_state \<Rightarrow> flight list \<times> enrich_state" where
  "enrich_routes_adsbdb s client flights st =
     (if \<not> route_lookup_enabled s then (flights, st)
      else enrich_loop client (route_max_new_per_cycle s) flights (st\<lparr>new_count := 0\<rparr>))"

section \<open>Main fetcher\<close>

text \<open>
  The request to the position provider: the centre and the radius that the URL of
  \<^verbatim>\<open>get_flights\<close> carries.
\<close>

record point_query =
  q_lat :: real
  q_lon :: real
  q_radius_nm :: real

type_synonym position_provider = "point_query \<Rightarrow> http_reply"

text \<open>The centre: both overrides, or the default pair.\<close>

definition resolve_center :: "settings \<Rightarrow> real option \<Rightarrow> real option \<Rightarrow> real \<times> real" where
  "resolve_center s lat_arg lon_arg =
     (case lat_arg of
        None \<Rightarrow> get_current_center s
      | Some la \<Rightarrow> (case lon_arg of None \<Rightarrow> get_current_center s | Some lo \<Rightarrow> (la, lo)))"

text \<open>The radius in nautical miles, with its clamp.\<close>

definition resolve_radius_nm :: "settings \<Rightarrow> real option \<Rightarrow> real" where
  "resolve_radius_nm s radius_nm =
     (let r0 = (case radius_nm of None \<Rightarrow> get_radius_km s / 1.852 | Some r \<Rightarrow> r);
          r1 = (if r0 < 10 then 10 else r0);
          r2 = (if r1 > 250 then 250 else r1)
      in r2)"

definition adsb_query :: "settings \<Rightarrow> real option \<Rightarrow> real option \<Rightarrow> real option \<Rightarrow> point_query" where
  "adsb_query s lat_arg lon_arg radius_nm =
     (let (lat0, lon0) = resolve_center s lat_arg lon_arg
      in \<lparr>q_lat = lat0, q_lon = lon0, q_radius_nm = resolve_radius_nm s radius_nm\<rparr>)"

text \<open>The \<^verbatim>\<open>try\<close> block of \<^verbatim>\<open>get_flights\<close>: the request, the status check, the decoding.\<close>

definition fetch_aircraft :: "http_reply \<Rightarrow> py_error + json" where
  "fetch_aircraft r =
     (case r of
        Transport_Error \<Rightarrow> Inl TransportError
      | Response status body \<Rightarrow>
          if \<not> is_success status then Inl HTTPStatusError
          else (case body of None \<Rightarrow> Inl JSONDecodeError | Some data \<Rightarrow> Inr data))"

text \<open>\<^verbatim>\<open>data.get("ac", [])\<close>.\<close>

definition aircraft_list_of :: "json \<Rightarrow> py_error + json" where
  "aircraft_list_of data =
     (case data of
        JObj kvs \<Rightarrow> Inr (case map_of kvs ''ac'' of None \<Rightarrow> JArr [] | Some v \<Rightarrow> v)
      | _ \<Rightarrow> Inl AttributeError)"

text \<open>
  The body of the loop over the aircraft: \<open>Inr None\<close> is \<^verbatim>\<open>continue\<close>, \<open>Inl\<close> an
  exception, which nothing in \<^verbatim>\<open>get_flights\<close> catches.
\<close>

definition flight_of_entry :: "real \<Rightarrow> real \<Rightarrow> nat \<Rightarrow> json \<Rightarrow> py_error + flight option" where
  "flight_of_entry lat0 lon0 now ac =
     (case ac of
        JObj kvs \<Rightarrow>
          (let c1 = dict_get kvs ''flight'';
               c2 = (if truthy c1 then c1 else dict_get kvs ''callsign'');
               cs = (if truthy c2 then c2 else JNull)
           in if \<not> truthy cs then Inr None
              else
                let lat = dict_get kvs ''lat'';
                    lon = dict_get kvs ''lon'';
                    alt = dict_get kvs ''alt_baro'';
                    gs_raw = dict_get kvs ''gs'';
                    baro = dict_get kvs ''baro_rate''
                in if lat = JNull \<or> lon = JNull then Inr None
                   else
                     (case as_float lat of
                        Inl e \<Rightarrow> Inl e
                      | Inr la \<Rightarrow>
                          (case as_float lon of
                             Inl e \<Rightarrow> Inl e
                           | Inr lo \<Rightarrow>
                               (let dist = haversine lat0 lon0 la lo;
                                    brg = bearing lat0 lon0 la lo
                                in case cs of
                                     JStr c \<Rightarrow>
                                       Inr (Some
                                         \<lparr>callsign = strip c,
                                          airline = get_airline_from_callsign c,
                                          origin = None,
                                          destination = None,
                                          aircraft_type = get_aircraft_type kvs,
                                          altitude_ft =
                                            (if is_number alt then Some (as_int alt) else None),
                                          distance_km = Some dist,
                                          bearing_deg = Some brg,
                                          gs = (if is_number gs_raw then Some (to_float gs_raw)
                                                else None),
                                          baro_rate =
                                            (if is_number baro then Some (as_int baro) else None),
                                          updated_at = now\<rparr>)
                                   | _ \<Rightarrow> Inl AttributeError))))
      | _ \<Rightarrow> Inl AttributeError)"

fun collect_flights :: "real \<Rightarrow> real \<Rightarrow> nat \<Rightarrow> json list \<Rightarrow> py_error + flight list" where
  "collect_flights lat0 lon0 now [] = Inr []"
| "collect_flights lat0 lon0 now (ac # acs) =
     (case flight_of_entry lat0 lon0 now ac of
        Inl e \<Rightarrow> Inl e
      | Inr r \<Rightarrow>
          (case collect_flights lat0 lon0 now acs of
             Inl e \<Rightarrow> Inl e
           | Inr fs \<Rightarrow> Inr (case r of None \<Rightarrow> fs | Some f \<Rightarrow> f # fs)))"

text \<open>
  The key of \<^verbatim>\<open>flights.sort\<close>. Python's sort is stable, and so is \<open>sort_key\<close>; pairs
  compare lexicographically in both.
\<close>

definition flight_sort_key :: "flight \<Rightarrow> real \<times> int" where
  "flight_sort_key f =
     (case distance_km f of None \<Rightarrow> 1000000000 | Some d \<Rightarrow> d,
      - (case altitude_ft f of None \<Rightarrow> 0 | Some a \<Rightarrow> a))"

definition sort_flights :: "flight list \<Rightarrow> flight list" where
  "sort_flights flights = sort_key flight_sort_key flights"

definition get_flights ::
  "settings \<Rightarrow> position_provider \<Rightarrow> route_provider \<Rightarrow> nat \<Rightarrow>
   real option \<Rightarrow> real option \<Rightarrow> real option \<Rightarrow> enrich_state \<Rightarrow>
   (py_error + flight list) \<times> enrich_state" where
  "get_flights s adsb client now lat_arg lon_arg radius_nm st =
     (let q = adsb_query s lat_arg lon_arg radius_nm
      in case fetch_aircraft (adsb q) of
           Inl e \<Rightarrow> (Inr [], st)
         | Inr data \<Rightarrow>
             (case aircraft_list_of data of
                Inl e \<Rightarrow> (Inl e, st)
              | Inr aircraft_list \<Rightarrow>
                  (case py_iter aircraft_list of
                     Inl e \<Rightarrow> (Inl e, st)
                   | Inr acs \<Rightarrow>
                       (case collect_flights (q_lat q) (q_lon q) now acs of
                          Inl e \<Rightarrow> (Inl e, st)
                        | Inr flights \<Rightarrow>
                            (let (flights', st') =
                                   enrich_routes_adsbdb s client (sort_flights flights) st
                             in (Inr flights', st'))))))"

section \<open>Process histories and sample inputs\<close>

text \<open>
  The state of a process that has just started (the module-level cache is empty), and a
  history of it: one enrichment pass after another over the same cache.
\<close>

definition fresh_state :: enrich_state where
  "fresh_state = \<lparr>route_cache = Map.empty, new_count = 0, calls = []\<rparr>"


text \<open>
  The requests of a log that the provider answered, with a route or with "not found", for
  one identifier: the positions in the log.
\<close>

definition answered :: "route_provider \<Rightarrow> nat \<Rightarrow> string \<Rightarrow> bool" where
  "answered client i cs = (case route_lookup (client i cs) of Inl e \<Rightarrow> False | Inr r \<Rightarrow> True)"

definition answered_calls :: "route_provider \<Rightarrow> string list \<Rightarrow> string \<Rightarrow> nat list" where
  "answered_calls client sent cs =
     filter (\<lambda>i. sent ! i = cs \<and> answered client i cs) [0..<length sent]"

definition cache_inv :: "route_provider \<Rightarrow> enrich_state \<Rightarrow> bool" where
  "cache_inv client st =
     (\<forall>cs. ((route_cache st cs = None) = (answered_calls client (calls st) cs = []))
          \<and> length (answered_calls client (calls st) cs) \<le> 1)"

text \<open>The defaults of \<^verbatim>\<open>config.py\<close>, and a record as the fetcher builds it before enrichment.\<close>

definition default_settings :: settings where
  "default_settings =
     \<lparr>center_lat = 42.2123, center_lon = - 83.3534, radius_km = 130,
      route_lookup_enabled = True, route_max_new_per_cycle = 2\<rparr>"

definition unrouted_flight :: "string \<Rightarrow> flight" where
  "unrouted_flight cs =
     \<lparr>callsign = cs, airline = None, origin = None, destination = None,
      aircraft_type = None, altitude_ft = None, distance_km = None, bearing_deg = None,
      gs = None, baro_rate = None, updated_at = 0\<rparr>"

definition five_flights :: "flight list" where
  "five_flights = map unrouted_flight [''DAL1'', ''UAL2'', ''SWA3'', ''JBU4'', ''FDX5'']"

text \<open>A provider that always times out, one that answers from the second request on.\<close>

definition timeout_client :: route_provider where
  "timeout_client i cs = Transport_Error"

definition route_body :: "string \<Rightarrow> string \<Rightarrow> json" where
  "route_body org dest =
     JObj [(''response'',
       JObj [(''flightroute'',
         JObj [(''origin'', JObj [(''icao_code'', JStr org)]),
               (''destination'', JObj [(''icao_code'', JStr dest)])])])]"


definition answering_client :: route_provider where
  "answering_client i cs =
     (if i = 0 then Response 404 None else Response 200 (Some (route_body ''KDTW'' ''KATL'')))"

definition cached_state :: enrich_state where
  "cached_state =
     \<lparr>route_cache = [''DAL1'' \<mapsto> (Some ''KDTW'', Some ''KATL'')], new_count = 0, calls = [''DAL1'']\<rparr>"

text \<open>A record whose origin is the empty string, and one with a route already.\<close>

definition empty_origin_flight :: flight where
  "empty_origin_flight = (unrouted_flight ''DAL1'')\<lparr>origin := Some []\<rparr>"

definition routed_flight :: flight where
  "routed_flight = (unrouted_flight ''DAL1'')\<lparr>origin := Some ''KORD'', destination := Some ''KSFO''\<rparr>"






text \<open>
  Records with a distance and an altitude; a position provider that reports two aircraft
  right at the centre (0, 0), the lower one first; and the records the fetcher makes of
  them at time 7.
\<close>

definition measured_flight :: "string \<Rightarrow> real \<Rightarrow> int \<Rightarrow> flight" where
  "measured_flight cs d a = (unrouted_flight cs)\<lparr>altitude_ft := Some a, distance_km := Some d\<rparr>"

definition two_at_centre :: position_provider where
  "two_at_centre q =
     Response 200 (Some (JObj [(''ac'', JArr
       [JObj [(''flight'', JStr ''UAL2''), (''lat'', JInt 0), (''lon'', JInt 0),
              (''alt_baro'', JInt 2000)],
        JObj [(''flight'', JStr ''DAL1''), (''lat'', JInt 0), (''lon'', JInt 0),
              (''alt_baro'', JInt 5000)] ])]))"

definition centre_record :: "string \<Rightarrow> string \<Rightarrow> int \<Rightarrow> flight" where
  "centre_record cs al a =
     \<lparr>callsign = cs, airline = Some al, origin = None, destination = None,
      aircraft_type = None, altitude_ft = Some a, distance_km = Some 0, bearing_deg = Some 0,
      gs = None, baro_rate = None, updated_at = 7\<rparr>"

section \<open>Properties of the classifier, the radius and the distance\<close>

lemma prefix_loop_take:
  "length p < 3 \<Longrightarrow> prefix_loop p s = p @ take (3 - length p) (takeWhile isalpha s)"
  by (induction s arbitrary: p) (auto simp: Let_def take_Cons')

lemma sin_half_radians_swap:
  "(sin (radians (y - x) / 2))\<^sup>2 = (sin (radians (x - y) / 2))\<^sup>2"
proof -
  have "radians (y - x) = - radians (x - y)"
    unfolding radians_def by (metis minus_diff_eq mult_minus_left)
  then have "radians (y - x) / 2 = - (radians (x - y) / 2)"
    by simp
  then show ?thesis
    by (simp only: sin_minus power2_minus)
qed

text \<open>
  Claim C7. An identifier whose trimmed, upper-cased form is the letter N followed by a
  letter or a digit is classified as general aviation, before the prefix table is read
  (so \<open>NKS123\<close> is not Spirit). Any other identifier gets the table entry of its leading
  run of letters, cut after three, and nothing when that run is empty or not in the
  table; a blank identifier gets nothing. \<open>DAL2968\<close> is Delta, \<open>N447MM\<close> general
  aviation, \<open>XYZ123\<close> nothing.
\<close>

theorem get_airline_from_callsign_classifies:
  "(upper (strip s) = CHR ''N'' # c # rest \<and> isalnum c \<longrightarrow>
      get_airline_from_callsign s = Some ''GA Aircraft'')
   \<and> (\<not> (\<exists>c rest. upper (strip s) = CHR ''N'' # c # rest \<and> isalnum c) \<longrightarrow>
      get_airline_from_callsign s =
        (let prefix = take 3 (takeWhile isalpha (upper (strip s)))
         in if prefix = [] then None else map_of AIRLINE_PREFIXES prefix))
   \<and> (strip s = [] \<longrightarrow> get_airline_from_callsign s = None)
   \<and> get_airline_from_callsign ''DAL2968'' = Some ''Delta''
   \<and> get_airline_from_callsign ''N447MM'' = Some ''GA Aircraft''
   \<and> get_airline_from_callsign ''NKS123'' = Some ''GA Aircraft''
   \<and> get_airline_from_callsign ''XYZ123'' = None"
proof -
  have n_rule: "get_airline_from_callsign s = Some ''GA Aircraft''"
    if "upper (strip s) = CHR ''N'' # c # rest" and "isalnum c" for c rest
  proof -
    from that(1) have "s \<noteq> []"
      by (auto simp: strip_def upper_def)
    with that show ?thesis
      by (simp add: get_airline_from_callsign_def AIRLINE_PREFIXES_def)
  qed
  have table_rule: "get_airline_from_callsign s =
        (let prefix = take 3 (takeWhile isalpha (upper (strip s)))
         in if prefix = [] then None else map_of AIRLINE_PREFIXES prefix)"
    if no: "\<not> (\<exists>c rest. upper (strip s) = CHR ''N'' # c # rest \<and> isalnum c)"
  proof (cases "s = []")
    case True
    then show ?thesis
      by (simp add: get_airline_from_callsign_def strip_def upper_def)
  next
    case False
    have guard: "\<not> (take 1 (upper (strip s)) = ''N'' \<and> length (upper (strip s)) \<ge> 2
                    \<and> isalnum (upper (strip s) ! 1))"
    proof
      assume g: "take 1 (upper (strip s)) = ''N'' \<and> length (upper (strip s)) \<ge> 2
                    \<and> isalnum (upper (strip s) ! 1)"
      then obtain a b r where abr: "upper (strip s) = a # b # r"
        by (cases "upper (strip s)"; cases "tl (upper (strip s))") auto
      with g have "a = CHR ''N''" and "isalnum b"
        by auto
      with abr no show False
        by blast
    qed
    have "get_airline_from_callsign s =
            (let prefix = prefix_loop [] (upper (strip s))
             in if prefix = [] then None else map_of AIRLINE_PREFIXES prefix)"
      unfolding get_airline_from_callsign_def Let_def
      by (simp only: False if_False if_not_P [OF guard])
    then show ?thesis
      by (simp add: prefix_loop_take)
  qed
  have blank: "get_airline_from_callsign s = None" if "strip s = []"
    using that by (simp add: get_airline_from_callsign_def upper_def)
  have ex1: "get_airline_from_callsign ''DAL2968'' = Some ''Delta''"
    by code_simp
  have ex2: "get_airline_from_callsign ''N447MM'' = Some ''GA Aircraft''"
    by code_simp
  have ex3: "get_airline_from_callsign ''NKS123'' = Some ''GA Aircraft''"
    by code_simp
  have ex4: "get_airline_from_callsign ''XYZ123'' = None"
    by code_simp
  from n_rule table_rule blank ex1 ex2 ex3 ex4 show ?thesis
    by blast
qed

theorem get_airline_from_callsign_classifies_witness:
  "get_airline_from_callsign '' n7x '' = Some ''GA Aircraft''
   \<and> get_airline_from_callsign ''ups12'' = Some ''UPS''
   \<and> get_airline_from_callsign ''   '' = None"
proof -
  have a: "upper (strip '' n7x '') = CHR ''N'' # CHR ''7'' # ''X'' \<and> isalnum CHR ''7''"
    by code_simp
  have "upper (strip ''ups12'') = ''UPS12''"
    by code_simp
  then have b: "\<not> (\<exists>c rest. upper (strip ''ups12'') = CHR ''N'' # c # rest \<and> isalnum c)"
    by simp
  have b': "(let prefix = take 3 (takeWhile isalpha (upper (strip ''ups12'')))
             in if prefix = [] then None else map_of AIRLINE_PREFIXES prefix) = Some ''UPS''"
    by code_simp
  have c: "strip ''   '' = []"
    by code_simp
  from a get_airline_from_callsign_classifies [of " '' n7x ''" "CHR ''7''" "''X''"]
  have 1: "get_airline_from_callsign '' n7x '' = Some ''GA Aircraft''"
    by blast
  from b b' get_airline_from_callsign_classifies [of "''ups12''"]
  have 2: "get_airline_from_callsign ''ups12'' = Some ''UPS''"
    by simp
  from c get_airline_from_callsign_classifies [of "''   ''"]
  have 3: "get_airline_from_callsign ''   '' = None"
    by blast
  from 1 2 3 show ?thesis
    by blast
qed


text \<open>
  Claim C9. The great-circle distance is symmetric in its two points, and it is 0 from a
  point to itself.
\<close>

theorem haversine_symmetric_zero:
  "haversine lat1 lon1 lat2 lon2 = haversine lat2 lon2 lat1 lon1
   \<and> haversine lat1 lon1 lat1 lon1 = 0"
proof
  show "haversine lat1 lon1 lat2 lon2 = haversine lat2 lon2 lat1 lon1"
    unfolding haversine_def Let_def
    by (simp add: sin_half_radians_swap [of lat2 lat1] sin_half_radians_swap [of lon2 lon1]
        mult.commute)
  show "haversine lat1 lon1 lat1 lon1 = 0"
    by (simp add: haversine_def radians_def atan2_def)
qed


subsection \<open>The square roots of the distance\<close>

text \<open>
  \<^verbatim>\<open>math.sqrt\<close> raises on a negative number. Over the reals the two numbers
  \<^verbatim>\<open>haversine\<close> takes the root of are never negative, which is why the model of
  \<^verbatim>\<open>haversine\<close> has no error.
\<close>

lemma sin_half_squared: "(sin (z / 2))\<^sup>2 = (1 - cos (z::real)) / 2"
  using cos_double_sin [of "z / 2"] by simp

lemma haversine_corner:
  "(sin ((y - x) / 2))\<^sup>2 + cos x * cos y = (1 + cos (x + y)) / (2::real)"
  by (simp add: sin_half_squared cos_diff cos_add field_simps)

lemma haversine_radicand_bounds:
  fixes x y v :: real
  defines "a \<equiv> (sin ((y - x) / 2))\<^sup>2 + cos x * cos y * (sin (v / 2))\<^sup>2"
  shows "0 \<le> a \<and> a \<le> 1"
proof -
  have s: "0 \<le> (sin (v / 2))\<^sup>2" "(sin (v / 2))\<^sup>2 \<le> 1"
    by (simp_all add: abs_square_le_1)
  have u: "0 \<le> (sin ((y - x) / 2))\<^sup>2" "(sin ((y - x) / 2))\<^sup>2 \<le> 1"
    by (simp_all add: abs_square_le_1)
  have corner: "0 \<le> (sin ((y - x) / 2))\<^sup>2 + cos x * cos y"
    "(sin ((y - x) / 2))\<^sup>2 + cos x * cos y \<le> 1"
  proof -
    have lo: "0 \<le> (1 + c) / 2" if "- 1 \<le> c" for c :: real
      using that by simp
    have hi: "(1 + c) / 2 \<le> 1" if "c \<le> 1" for c :: real
      using that by simp
    show "0 \<le> (sin ((y - x) / 2))\<^sup>2 + cos x * cos y"
      unfolding haversine_corner by (rule lo) (rule cos_ge_minus_one)
    show "(sin ((y - x) / 2))\<^sup>2 + cos x * cos y \<le> 1"
      unfolding haversine_corner by (rule hi) (rule cos_le_one)
  qed
  show ?thesis
  proof (cases "0 \<le> cos x * cos y")
    case True
    then have "cos x * cos y * (sin (v / 2))\<^sup>2 \<le> cos x * cos y * 1"
      using s(2) by (intro mult_left_mono) simp_all
    moreover have "0 \<le> cos x * cos y * (sin (v / 2))\<^sup>2"
      using True s(1) by simp
    ultimately show ?thesis
      using u(1) corner(2) by (simp add: a_def)
  next
    case False
    then have neg: "cos x * cos y \<le> 0"
      by simp
    then have "cos x * cos y * 1 \<le> cos x * cos y * (sin (v / 2))\<^sup>2"
      using s(2) by (intro mult_left_mono_neg) simp_all
    moreover have "cos x * cos y * (sin (v / 2))\<^sup>2 \<le> 0"
      using neg s(1) by (simp add: mult_nonpos_nonneg)
    ultimately show ?thesis
      using u(2) corner(1) by (simp add: a_def)
  qed
qed

lemma haversine_sqrt_arguments:
  "0 \<le> (sin (radians (lat2 - lat1) / 2))\<^sup>2
         + cos (radians lat1) * cos (radians lat2) * (sin (radians (lon2 - lon1) / 2))\<^sup>2
   \<and> 0 \<le> 1 - ((sin (radians (lat2 - lat1) / 2))\<^sup>2
         + cos (radians lat1) * cos (radians lat2) * (sin (radians (lon2 - lon1) / 2))\<^sup>2)"
proof -
  have "radians (lat2 - lat1) = radians lat2 - radians lat1"
    by (simp add: radians_def left_diff_distrib)
  with haversine_radicand_bounds [where x = "radians lat1" and y = "radians lat2" and v = "radians (lon2 - lon1)"]
  show ?thesis
    by simp
qed


section \<open>Properties of route enrichment\<close>

subsection \<open>One iteration\<close>

lemma enrich_one_skip_set:
  "is_set (origin f) \<or> is_set (destination f) \<Longrightarrow> enrich_one client max_new f st = (f, st)"
  by (simp add: enrich_one_def)

lemma enrich_one_cached:
  assumes "\<not> is_set (origin f)" and "\<not> is_set (destination f)" and "cache_key f \<noteq> []"
    and "route_cache st (cache_key f) = Some (org, dest)"
  shows "enrich_one client max_new f st = (f\<lparr>origin := org, destination := dest\<rparr>, st)"
  using assms by (simp add: enrich_one_def)

lemma enrich_one_exhausted:
  assumes "route_cache st (cache_key f) = None" and "max_new \<le> new_count st"
  shows "enrich_one client max_new f st = (f, st)"
  using assms by (simp add: enrich_one_def Let_def)

lemma enrich_one_failed:
  assumes "\<not> is_set (origin f)" and "\<not> is_set (destination f)" and "cache_key f \<noteq> []"
    and "route_cache st (cache_key f) = None" and "new_count st < max_new"
    and "route_lookup (client (length (calls st)) (cache_key f)) = Inl e"
  shows "enrich_one client max_new f st = (f, st\<lparr>calls := calls st @ [cache_key f]\<rparr>)"
  using assms by (simp add: enrich_one_def Let_def)

lemma enrich_one_not_found:
  assumes "\<not> is_set (origin f)" and "\<not> is_set (destination f)" and "cache_key f \<noteq> []"
    and "route_cache st (cache_key f) = None" and "new_count st < max_new"
    and "route_lookup (client (length (calls st)) (cache_key f)) = Inr Not_Found"
  shows "enrich_one client max_new f st =
           (f, st\<lparr>calls := calls st @ [cache_key f],
                  route_cache := (route_cache st)(cache_key f \<mapsto> (None, None)),
                  new_count := new_count st + 1\<rparr>)"
  using assms by (simp add: enrich_one_def Let_def)

lemma enrich_one_resolved:
  assumes "\<not> is_set (origin f)" and "\<not> is_set (destination f)" and "cache_key f \<noteq> []"
    and "route_cache st (cache_key f) = None" and "new_count st < max_new"
    and "route_lookup (client (length (calls st)) (cache_key f)) = Inr (Route org dest)"
  shows "enrich_one client max_new f st =
           (f\<lparr>origin := org, destination := dest\<rparr>,
            st\<lparr>calls := calls st @ [cache_key f],
                route_cache := (route_cache st)(cache_key f \<mapsto> (org, dest)),
                new_count := new_count st + 1\<rparr>)"
  using assms by (simp add: enrich_one_def Let_def)

text \<open>The six cases above are all there is.\<close>

lemma enrich_one_cases:
  obtains
    (skip) "enrich_one client max_new f st = (f, st)"
  | (hit) org dest where "\<not> is_set (origin f)" "\<not> is_set (destination f)"
      "cache_key f \<noteq> []" "route_cache st (cache_key f) = Some (org, dest)"
      "enrich_one client max_new f st = (f\<lparr>origin := org, destination := dest\<rparr>, st)"
  | (failed) e where "\<not> is_set (origin f)" "\<not> is_set (destination f)"
      "cache_key f \<noteq> []" "route_cache st (cache_key f) = None" "new_count st < max_new"
      "route_lookup (client (length (calls st)) (cache_key f)) = Inl e"
      "enrich_one client max_new f st = (f, st\<lparr>calls := calls st @ [cache_key f]\<rparr>)"
  | (not_found) "\<not> is_set (origin f)" "\<not> is_set (destination f)"
      "cache_key f \<noteq> []" "route_cache st (cache_key f) = None" "new_count st < max_new"
      "route_lookup (client (length (calls st)) (cache_key f)) = Inr Not_Found"
      "enrich_one client max_new f st =
         (f, st\<lparr>calls := calls st @ [cache_key f],
                route_cache := (route_cache st)(cache_key f \<mapsto> (None, None)),
                new_count := new_count st + 1\<rparr>)"
  | (resolved) org dest where "\<not> is_set (origin f)" "\<not> is_set (destination f)"
      "cache_key f \<noteq> []" "route_cache st (cache_key f) = None" "new_count st < max_new"
      "route_lookup (client (length (calls st)) (cache_key f)) = Inr (Route org dest)"
      "enrich_one client max_new f st =
         (f\<lparr>origin := org, destination := dest\<rparr>,
          st\<lparr>calls := calls st @ [cache_key f],
              route_cache := (route_cache st)(cache_key f \<mapsto> (org, dest)),
              new_count := new_count st + 1\<rparr>)"
proof (cases "is_set (origin f) \<or> is_set (destination f) \<or> cache_key f = []")
  case True
  then have "enrich_one client max_new f st = (f, st)"
    by (auto simp: enrich_one_def)
  then show ?thesis by (rule skip)
next
  case unset: False
  show ?thesis
  proof (cases "route_cache st (cache_key f)")
    case (Some p)
    obtain org dest where "p = (org, dest)" by (cases p)
    with unset Some show ?thesis
      by (intro hit [of org dest]) (simp_all add: enrich_one_cached)
  next
    case None
    show ?thesis
    proof (cases "max_new \<le> new_count st")
      case True
      with None show ?thesis
        by (intro skip) (simp add: enrich_one_exhausted)
    next
      case budget: False
      show ?thesis
      proof (cases "route_lookup (client (length (calls st)) (cache_key f))")
        case (Inl e)
        with unset None budget show ?thesis
          by (intro failed [of e]) (simp_all add: enrich_one_failed)
      next
        case (Inr r)
        show ?thesis
        proof (cases r)
          case Not_Found
          with Inr unset None budget show ?thesis
            by (intro not_found) (simp_all add: enrich_one_not_found)
        next
          case (Route org dest)
          with Inr unset None budget show ?thesis
            by (intro resolved [of org dest]) (simp_all add: enrich_one_resolved)
        qed
      qed
    qed
  qed
qed

text \<open>An iteration only ever writes the two route fields of its record.\<close>

lemma enrich_one_frame:
  "(fst (enrich_one client max_new f st))\<lparr>origin := origin f, destination := destination f\<rparr> = f"
  by (cases rule: enrich_one_cases [of client max_new f st]) auto


lemma enrich_one_count_mono:
  "new_count st \<le> new_count (snd (enrich_one client max_new f st))"
  by (cases rule: enrich_one_cases [of client max_new f st]) auto


subsection \<open>The loop\<close>

lemma enrich_loop_Cons:
  "enrich_loop client max_new (f # fs) st =
     (fst (enrich_one client max_new f st)
        # fst (enrich_loop client max_new fs (snd (enrich_one client max_new f st))),
      snd (enrich_loop client max_new fs (snd (enrich_one client max_new f st))))"
  by (simp add: split_beta)

lemma enrich_loop_length:
  "length (fst (enrich_loop client max_new fs st)) = length fs"
  by (induction fs arbitrary: st) (simp_all add: split_beta)


lemma enrich_loop_exhausted:
  "max_new \<le> new_count st \<Longrightarrow> enrich_loop client max_new fs st
     = (map (\<lambda>f. fst (enrich_one client max_new f st)) fs, st)"
proof (induction fs)
  case Nil
  then show ?case by simp
next
  case (Cons f fs)
  have "snd (enrich_one client max_new f st) = st"
    using Cons.prems by (cases rule: enrich_one_cases [of client max_new f st]) auto
  with Cons show ?case
    by (simp add: split_beta)
qed


subsection \<open>A lookup that fails\<close>





subsection \<open>The frame of an enrichment pass\<close>

lemma enrich_loop_map_frame:
  assumes "\<And>x a b. sel (x\<lparr>origin := a, destination := b\<rparr>) = sel x"
  shows "map sel (fst (enrich_loop client max_new fs st)) = map sel fs"
proof (induction fs arbitrary: st)
  case Nil
  show ?case by simp
next
  case (Cons f fs)
  have "sel (fst (enrich_one client max_new f st)) =
        sel ((fst (enrich_one client max_new f st))\<lparr>origin := origin f, destination := destination f\<rparr>)"
    by (simp only: assms)
  also have "\<dots> = sel f"
    by (simp only: enrich_one_frame)
  finally show ?case
    using Cons.IH by (simp add: split_beta)
qed

lemma enrich_loop_nth_skip:
  "i < length fs \<Longrightarrow> is_set (origin (fs ! i)) \<or> is_set (destination (fs ! i)) \<Longrightarrow>
     fst (enrich_loop client max_new fs st) ! i = fs ! i"
proof (induction fs arbitrary: i st)
  case Nil
  then show ?case by simp
next
  case (Cons f fs)
  show ?case
  proof (cases i)
    case 0
    with Cons.prems show ?thesis
      by (simp add: split_beta enrich_one_skip_set)
  next
    case (Suc j)
    with Cons.prems Cons.IH [of j] show ?thesis
      by (simp add: split_beta)
  qed
qed

lemma enrich_routes_map_frame:
  assumes "\<And>x a b. sel (x\<lparr>origin := a, destination := b\<rparr>) = sel x"
  shows "map sel (fst (enrich_routes_adsbdb s client fs st)) = map sel fs"
  using enrich_loop_map_frame [of sel, OF assms] by (simp add: enrich_routes_adsbdb_def)

lemma enrich_routes_length:
  "length (fst (enrich_routes_adsbdb s client fs st)) = length fs"
  by (simp add: enrich_routes_adsbdb_def enrich_loop_length)

lemma enrich_routes_nth_skip:
  "i < length fs \<Longrightarrow> is_set (origin (fs ! i)) \<or> is_set (destination (fs ! i)) \<Longrightarrow>
     fst (enrich_routes_adsbdb s client fs st) ! i = fs ! i"
  by (simp add: enrich_routes_adsbdb_def enrich_loop_nth_skip)

text \<open>
  Claim C10, as the code has it. An enrichment pass returns as many records as it was
  given, in the same positions; the identifier, operator, aircraft type, altitude,
  distance, bearing, ground speed, vertical rate and timestamp of every record are
  unchanged; and a record whose origin or destination is a non-empty string is returned
  as it was. (The records that may be written are those whose origin and destination are
  each absent or the empty string.)
\<close>

theorem enrichment_only_writes_routes:
  "length (fst (enrich_routes_adsbdb s client fs st)) = length fs
   \<and> map callsign (fst (enrich_routes_adsbdb s client fs st)) = map callsign fs
   \<and> map airline (fst (enrich_routes_adsbdb s client fs st)) = map airline fs
   \<and> map aircraft_type (fst (enrich_routes_adsbdb s client fs st)) = map aircraft_type fs
   \<and> map altitude_ft (fst (enrich_routes_adsbdb s client fs st)) = map altitude_ft fs
   \<and> map distance_km (fst (enrich_routes_adsbdb s client fs st)) = map distance_km fs
   \<and> map bearing_deg (fst (enrich_routes_adsbdb s client fs st)) = map bearing_deg fs
   \<and> map gs (fst (enrich_routes_adsbdb s client fs st)) = map gs fs
   \<and> map baro_rate (fst (enrich_routes_adsbdb s client fs st)) = map baro_rate fs
   \<and> map updated_at (fst (enrich_routes_adsbdb s client fs st)) = map updated_at fs
   \<and> (\<forall>i. i < length fs \<and> (is_set (origin (fs ! i)) \<or> is_set (destination (fs ! i))) \<longrightarrow>
         fst (enrich_routes_adsbdb s client fs st) ! i = fs ! i)"
proof -
  have 1: "map callsign (fst (enrich_routes_adsbdb s client fs st)) = map callsign fs"
    by (rule enrich_routes_map_frame) simp
  have 2: "map airline (fst (enrich_routes_adsbdb s client fs st)) = map airline fs"
    by (rule enrich_routes_map_frame) simp
  have 3: "map aircraft_type (fst (enrich_routes_adsbdb s client fs st)) = map aircraft_type fs"
    by (rule enrich_routes_map_frame) simp
  have 4: "map altitude_ft (fst (enrich_routes_adsbdb s client fs st)) = map altitude_ft fs"
    by (rule enrich_routes_map_frame) simp
  have 5: "map distance_km (fst (enrich_routes_adsbdb s client fs st)) = map distance_km fs"
    by (rule enrich_routes_map_frame) simp
  have 6: "map bearing_deg (fst (enrich_routes_adsbdb s client fs st)) = map bearing_deg fs"
    by (rule enrich_routes_map_frame) simp
  have 7: "map gs (fst (enrich_routes_adsbdb s client fs st)) = map gs fs"
    by (rule enrich_routes_map_frame) simp
  have 8: "map baro_rate (fst (enrich_routes_adsbdb s client fs st)) = map baro_rate fs"
    by (rule enrich_routes_map_frame) simp
  have 9: "map updated_at (fst (enrich_routes_adsbdb s client fs st)) = map updated_at fs"
    by (rule enrich_routes_map_frame) simp
  have 10: "\<forall>i. i < length fs \<and> (is_set (origin (fs ! i)) \<or> is_set (destination (fs ! i))) \<longrightarrow>
         fst (enrich_routes_adsbdb s client fs st) ! i = fs ! i"
    by (simp add: enrich_routes_nth_skip)
  from enrich_routes_length [of s client fs st] 1 2 3 4 5 6 7 8 9 10 show ?thesis
    by (intro conjI)
qed

theorem enrichment_only_writes_routes_witness:
  "fst (enrich_routes_adsbdb default_settings timeout_client
          [unrouted_flight ''DAL1'', routed_flight] cached_state) ! 1 = routed_flight
   \<and> map callsign (fst (enrich_routes_adsbdb default_settings timeout_client
          [unrouted_flight ''DAL1'', routed_flight] cached_state)) = [''DAL1'', ''DAL1'']"
proof -
  have hyp: "(1::nat) < length [unrouted_flight ''DAL1'', routed_flight]
      \<and> (is_set (origin ([unrouted_flight ''DAL1'', routed_flight] ! 1))
         \<or> is_set (destination ([unrouted_flight ''DAL1'', routed_flight] ! 1)))"
    by (simp add: routed_flight_def is_set_def)
  have names: "map callsign [unrouted_flight ''DAL1'', routed_flight] = [''DAL1'', ''DAL1'']"
    by (simp add: routed_flight_def unrouted_flight_def)
  from hyp names
    enrichment_only_writes_routes
      [of default_settings timeout_client "[unrouted_flight ''DAL1'', routed_flight]" cached_state]
  show ?thesis
    by (simp del: One_nat_def nth_Cons_Suc)
qed

text \<open>
  The claim as it is worded speaks of records whose origin and destination are absent.
  A record whose origin is the empty string is not one of those, and it is overwritten.
\<close>

theorem empty_origin_is_overwritten:
  "origin empty_origin_flight = Some []
   \<and> map origin (fst (enrich_routes_adsbdb default_settings timeout_client
        [empty_origin_flight] cached_state)) = [Some ''KDTW'']"
proof -
  have key: "cache_key empty_origin_flight = ''DAL1''"
    by code_simp
  show ?thesis
    by (simp add: enrich_routes_adsbdb_def default_settings_def enrich_one_def key Let_def)
      (simp add: empty_origin_flight_def unrouted_flight_def is_set_def cached_state_def)
qed


subsection \<open>The budget of new lookups\<close>

lemma enrich_one_answered:
  assumes "\<not> is_set (origin f)" and "\<not> is_set (destination f)" and "cache_key f \<noteq> []"
    and "route_cache st (cache_key f) = None" and "new_count st < max_new"
    and "route_lookup (client (length (calls st)) (cache_key f)) = Inr r"
  shows "\<exists>v. snd (enrich_one client max_new f st) =
           st\<lparr>calls := calls st @ [cache_key f],
               route_cache := (route_cache st)(cache_key f \<mapsto> v),
               new_count := new_count st + 1\<rparr>"
proof (cases r)
  case Not_Found
  with assms show ?thesis
    by (intro exI [of _ "(None, None)"]) (simp add: enrich_one_not_found)
next
  case (Route org dest)
  with assms show ?thesis
    by (intro exI [of _ "(org, dest)"]) (simp add: enrich_one_resolved)
qed

lemma enrich_loop_exhausted_uncached:
  assumes "max_new \<le> new_count st" and "\<forall>f \<in> set fs. route_cache st (cache_key f) = None"
  shows "enrich_loop client max_new fs st = (fs, st)"
proof -
  have "map (\<lambda>f. fst (enrich_one client max_new f st)) fs = map (\<lambda>f. f) fs"
    using assms by (intro map_cong) (simp_all add: enrich_one_exhausted)
  with assms(1) show ?thesis
    by (simp add: enrich_loop_exhausted)
qed

lemma enrich_loop_exhausted_state:
  "max_new \<le> new_count st \<Longrightarrow> snd (enrich_loop client max_new fs st) = st"
  by (simp add: enrich_loop_exhausted)

lemma two_answered_then_exhausted:
  assumes unset: "\<forall>f \<in> set (f1 # f2 # rest).
        \<not> is_set (origin f) \<and> \<not> is_set (destination f) \<and> cache_key f \<noteq> []
        \<and> route_cache st (cache_key f) = None"
    and dist: "distinct (map cache_key (f1 # f2 # rest))"
    and count: "new_count st = 0"
    and r1: "route_lookup (client (length (calls st)) (cache_key f1)) = Inr r1"
    and r2: "route_lookup (client (Suc (length (calls st))) (cache_key f2)) = Inr r2"
  shows "calls (snd (enrich_loop client 2 (f1 # f2 # rest) st))
           = calls st @ [cache_key f1, cache_key f2]
         \<and> drop 2 (fst (enrich_loop client 2 (f1 # f2 # rest) st)) = rest"
proof -
  obtain v1 where st1: "snd (enrich_one client 2 f1 st) =
      st\<lparr>calls := calls st @ [cache_key f1],
          route_cache := (route_cache st)(cache_key f1 \<mapsto> v1),
          new_count := new_count st + 1\<rparr>"
    using enrich_one_answered [of f1 st 2 client r1] unset count r1 by auto
  define s1 where "s1 = snd (enrich_one client 2 f1 st)"
  have s1_calls: "calls s1 = calls st @ [cache_key f1]"
    and s1_count: "new_count s1 = 1"
    and s1_cache: "route_cache s1 = (route_cache st)(cache_key f1 \<mapsto> v1)"
    using st1 count by (simp_all add: s1_def)
  have k2: "route_cache s1 (cache_key f2) = None"
    using unset dist by (auto simp: s1_cache)
  have "route_lookup (client (length (calls s1)) (cache_key f2)) = Inr r2"
    using r2 by (simp add: s1_calls)
  then obtain v2 where st2: "snd (enrich_one client 2 f2 s1) =
      s1\<lparr>calls := calls s1 @ [cache_key f2],
          route_cache := (route_cache s1)(cache_key f2 \<mapsto> v2),
          new_count := new_count s1 + 1\<rparr>"
    using enrich_one_answered [of f2 s1 2 client r2] unset k2 s1_count by auto
  define s2 where "s2 = snd (enrich_one client 2 f2 s1)"
  have s2_calls: "calls s2 = calls st @ [cache_key f1, cache_key f2]"
    and s2_count: "new_count s2 = 2"
    and s2_cache: "route_cache s2 = (route_cache s1)(cache_key f2 \<mapsto> v2)"
    using st2 s1_calls s1_count by (simp_all add: s2_def)
  have "\<forall>f \<in> set rest. route_cache s2 (cache_key f) = None"
  proof
    fix f assume f: "f \<in> set rest"
    with dist have "cache_key f \<noteq> cache_key f1" and "cache_key f \<noteq> cache_key f2"
      by (auto simp: image_iff)
    with f unset show "route_cache s2 (cache_key f) = None"
      by (simp add: s2_cache s1_cache)
  qed
  then have rest: "enrich_loop client 2 rest s2 = (rest, s2)"
    using s2_count by (intro enrich_loop_exhausted_uncached) simp_all
  have "enrich_loop client 2 (f1 # f2 # rest) st =
      (fst (enrich_one client 2 f1 st) # fst (enrich_one client 2 f2 s1) # rest, s2)"
    by (simp add: split_beta rest s1_def [symmetric] s2_def [symmetric])
  then show ?thesis
    by (simp add: s2_calls)
qed

text \<open>
  Claim C1, as the code has it. With route lookup enabled and a budget of 2, an
  invocation over five records that all need a lookup (no origin, no destination, a
  non-blank identifier that is not cached, the five identifiers distinct), whose first two
  requests are answered (with a route or with "not found"), sends exactly those two
  requests and returns the other three records as they were. In general, from the moment
  the count of new lookups has reached the budget, the rest of the loop sends no request
  and changes neither the cache nor the count. (A request that fails does not count, so
  more than two requests are sent when requests fail.)
\<close>

theorem lookup_budget_enforced:
  "(route_lookup_enabled s \<and> route_max_new_per_cycle s = 2
     \<and> (\<forall>f \<in> set [f1, f2, f3, f4, f5].
          \<not> is_set (origin f) \<and> \<not> is_set (destination f) \<and> cache_key f \<noteq> []
          \<and> route_cache st (cache_key f) = None)
     \<and> distinct (map cache_key [f1, f2, f3, f4, f5])
     \<and> route_lookup (client (length (calls st)) (cache_key f1)) = Inr r1
     \<and> route_lookup (client (Suc (length (calls st))) (cache_key f2)) = Inr r2
    \<longrightarrow> calls (snd (enrich_routes_adsbdb s client [f1, f2, f3, f4, f5] st))
          = calls st @ [cache_key f1, cache_key f2]
        \<and> drop 2 (fst (enrich_routes_adsbdb s client [f1, f2, f3, f4, f5] st)) = [f3, f4, f5])
   \<and> (max_new \<le> new_count st0 \<longrightarrow> snd (enrich_loop client max_new rest st0) = st0)"
proof (intro conjI impI)
  assume a: "route_lookup_enabled s \<and> route_max_new_per_cycle s = 2
     \<and> (\<forall>f \<in> set [f1, f2, f3, f4, f5].
          \<not> is_set (origin f) \<and> \<not> is_set (destination f) \<and> cache_key f \<noteq> []
          \<and> route_cache st (cache_key f) = None)
     \<and> distinct (map cache_key [f1, f2, f3, f4, f5])
     \<and> route_lookup (client (length (calls st)) (cache_key f1)) = Inr r1
     \<and> route_lookup (client (Suc (length (calls st))) (cache_key f2)) = Inr r2"
  have run: "enrich_routes_adsbdb s client [f1, f2, f3, f4, f5] st =
      enrich_loop client 2 (f1 # f2 # [f3, f4, f5]) (st\<lparr>new_count := 0\<rparr>)"
    using a by (simp add: enrich_routes_adsbdb_def)
  have both: "calls (snd (enrich_loop client 2 (f1 # f2 # [f3, f4, f5]) (st\<lparr>new_count := 0\<rparr>)))
           = calls (st\<lparr>new_count := 0\<rparr>) @ [cache_key f1, cache_key f2]
         \<and> drop 2 (fst (enrich_loop client 2 (f1 # f2 # [f3, f4, f5]) (st\<lparr>new_count := 0\<rparr>)))
           = [f3, f4, f5]"
    using a by (intro two_answered_then_exhausted [of f1 f2 _ _ client r1 r2]) simp_all
  from both show "calls (snd (enrich_routes_adsbdb s client [f1, f2, f3, f4, f5] st))
          = calls st @ [cache_key f1, cache_key f2]"
    by (simp only: run) simp
  from both show "drop 2 (fst (enrich_routes_adsbdb s client [f1, f2, f3, f4, f5] st)) = [f3, f4, f5]"
    by (simp only: run)
next
  assume "max_new \<le> new_count st0"
  then show "snd (enrich_loop client max_new rest st0) = st0"
    by (rule enrich_loop_exhausted_state)
qed

lemma cache_key_unrouted: "cache_key (unrouted_flight cs) = upper (strip cs)"
  by (simp add: cache_key_def unrouted_flight_def)

lemma sample_keys:
  "upper (strip ''DAL1'') = ''DAL1''" "upper (strip ''UAL2'') = ''UAL2''"
  "upper (strip ''SWA3'') = ''SWA3''" "upper (strip ''JBU4'') = ''JBU4''"
  "upper (strip ''FDX5'') = ''FDX5''"
  by code_simp+

theorem lookup_budget_enforced_witness:
  "calls (snd (enrich_routes_adsbdb default_settings answering_client five_flights fresh_state))
     = [''DAL1'', ''UAL2'']
   \<and> drop 2 (fst (enrich_routes_adsbdb default_settings answering_client five_flights fresh_state))
     = map unrouted_flight [''SWA3'', ''JBU4'', ''FDX5'']"
proof -
  have pick1: "pick (JObj [(''icao_code'', JStr ''KDTW'')]) = Some ''KDTW''"
    by code_simp
  have pick2: "pick (JObj [(''icao_code'', JStr ''KATL'')]) = Some ''KATL''"
    by code_simp
  have body: "parse_route (route_body ''KDTW'' ''KATL'') = Inr (Route (Some ''KDTW'') (Some ''KATL''))"
    by (simp add: parse_route_def route_body_def or_empty_def py_get_def dict_get_def pick1 pick2)
  have hyp: "route_lookup_enabled default_settings \<and> route_max_new_per_cycle default_settings = 2
     \<and> (\<forall>f \<in> set [unrouted_flight ''DAL1'', unrouted_flight ''UAL2'', unrouted_flight ''SWA3'',
                    unrouted_flight ''JBU4'', unrouted_flight ''FDX5''].
          \<not> is_set (origin f) \<and> \<not> is_set (destination f) \<and> cache_key f \<noteq> []
          \<and> route_cache fresh_state (cache_key f) = None)
     \<and> distinct (map cache_key [unrouted_flight ''DAL1'', unrouted_flight ''UAL2'',
          unrouted_flight ''SWA3'', unrouted_flight ''JBU4'', unrouted_flight ''FDX5''])
     \<and> route_lookup (answering_client (length (calls fresh_state)) (cache_key (unrouted_flight ''DAL1'')))
         = Inr Not_Found
     \<and> route_lookup (answering_client (Suc (length (calls fresh_state)))
           (cache_key (unrouted_flight ''UAL2''))) = Inr (Route (Some ''KDTW'') (Some ''KATL''))"
    by (simp add: cache_key_unrouted sample_keys)
      (simp add: default_settings_def unrouted_flight_def is_set_def fresh_state_def
        answering_client_def route_lookup_def is_success_def body)
  from hyp lookup_budget_enforced
    [of default_settings "unrouted_flight ''DAL1''" "unrouted_flight ''UAL2''"
      "unrouted_flight ''SWA3''" "unrouted_flight ''JBU4''" "unrouted_flight ''FDX5''"
      fresh_state answering_client Not_Found "Route (Some ''KDTW'') (Some ''KATL'')"]
  have "calls (snd (enrich_routes_adsbdb default_settings answering_client
          [unrouted_flight ''DAL1'', unrouted_flight ''UAL2'', unrouted_flight ''SWA3'',
           unrouted_flight ''JBU4'', unrouted_flight ''FDX5''] fresh_state))
          = calls fresh_state @ [cache_key (unrouted_flight ''DAL1''), cache_key (unrouted_flight ''UAL2'')]
        \<and> drop 2 (fst (enrich_routes_adsbdb default_settings answering_client
          [unrouted_flight ''DAL1'', unrouted_flight ''UAL2'', unrouted_flight ''SWA3'',
           unrouted_flight ''JBU4'', unrouted_flight ''FDX5''] fresh_state))
          = [unrouted_flight ''SWA3'', unrouted_flight ''JBU4'', unrouted_flight ''FDX5'']"
    by blast
  then show ?thesis
    by (simp add: five_flights_def cache_key_unrouted sample_keys fresh_state_def)
qed

text \<open>
  The claim as it is worded holds for every invocation. When every request times out,
  none of them counts against the budget, and all five records are looked up.
\<close>

theorem five_timeouts_five_calls:
  "calls (snd (enrich_routes_adsbdb default_settings timeout_client five_flights fresh_state))
     = [''DAL1'', ''UAL2'', ''SWA3'', ''JBU4'', ''FDX5'']
   \<and> length (calls (snd (enrich_routes_adsbdb default_settings timeout_client five_flights
        fresh_state))) = 5"
proof -
  have step: "enrich_one timeout_client 2 (unrouted_flight cs) st
      = (unrouted_flight cs, st\<lparr>calls := calls st @ [upper (strip cs)]\<rparr>)"
    if "upper (strip cs) \<noteq> []" and "route_cache st (upper (strip cs)) = None"
      and "new_count st = 0" for cs st
  proof -
    have "enrich_one timeout_client 2 (unrouted_flight cs) st
      = (unrouted_flight cs, st\<lparr>calls := calls st @ [cache_key (unrouted_flight cs)]\<rparr>)"
      using that
      by (intro enrich_one_failed [where e = TransportError])
        (simp_all add: cache_key_unrouted timeout_client_def route_lookup_def,
         simp_all add: unrouted_flight_def is_set_def)
    then show ?thesis
      by (simp add: cache_key_unrouted)
  qed
  have "calls (snd (enrich_routes_adsbdb default_settings timeout_client five_flights fresh_state))
     = [''DAL1'', ''UAL2'', ''SWA3'', ''JBU4'', ''FDX5'']"
    by (simp add: enrich_routes_adsbdb_def default_settings_def five_flights_def fresh_state_def
        step sample_keys)
  then show ?thesis
    by simp
qed


subsection \<open>The cache across invocations\<close>




lemma cache_inv_new_count [simp]: "cache_inv client (st\<lparr>new_count := n\<rparr>) = cache_inv client st"
  by (simp add: cache_inv_def)
















section \<open>Properties of the fetcher\<close>

subsection \<open>Failure of the position request\<close>





subsection \<open>Which raw entries become records\<close>


lemma get_aircraft_type_keys_missing:
  "\<forall>k \<in> set ks. map_of kvs k = None \<Longrightarrow> get_aircraft_type_keys kvs ks = None"
  by (induction ks) (simp_all add: dict_get_def)

lemma get_aircraft_type_missing:
  assumes "map_of kvs ''t'' = None" and "map_of kvs ''type'' = None"
    and "map_of kvs ''icao_type'' = None" and "map_of kvs ''mdl'' = None"
  shows "get_aircraft_type kvs = None"
  unfolding get_aircraft_type_def using assms by (intro get_aircraft_type_keys_missing) simp






subsection \<open>The order of the returned list\<close>

lemma flight_sort_key_frame:
  "flight_sort_key (x\<lparr>origin := a, destination := b\<rparr>) = flight_sort_key x"
  by (simp add: flight_sort_key_def)

lemma sorted_keys_explicit:
  assumes "sorted (map flight_sort_key fs)"
  shows "sorted_wrt
           (\<lambda>f g. (case distance_km f of None \<Rightarrow> 1000000000 | Some d \<Rightarrow> d)
                     < (case distance_km g of None \<Rightarrow> 1000000000 | Some d \<Rightarrow> d)
                  \<or> (case distance_km f of None \<Rightarrow> 1000000000 | Some d \<Rightarrow> d)
                     = (case distance_km g of None \<Rightarrow> 1000000000 | Some d \<Rightarrow> d)
                    \<and> (case altitude_ft g of None \<Rightarrow> 0 | Some a \<Rightarrow> a)
                       \<le> (case altitude_ft f of None \<Rightarrow> 0 | Some a \<Rightarrow> a)) fs"
proof -
  from assms have "sorted_wrt (\<lambda>f g. flight_sort_key f \<le> flight_sort_key g) fs"
    by (simp add: sorted_map)
  then show ?thesis
    by (rule sorted_wrt_mono_rel [rotated]) (auto simp: flight_sort_key_def)
qed

lemma get_flights_keys_sorted:
  assumes "fst (get_flights s adsb client now lat_arg lon_arg r st) = Inr out"
  shows "sorted (map flight_sort_key out)"
proof (cases "fetch_aircraft (adsb (adsb_query s lat_arg lon_arg r))")
  case (Inl e)
  with assms have "out = []"
    by (simp add: get_flights_def Let_def)
  then show ?thesis by simp
next
  case (Inr data)
  with assms obtain flights where
    out: "out = fst (enrich_routes_adsbdb s client (sort_flights flights) st)"
    by (auto simp: get_flights_def Let_def split_beta split: sum.splits)
  have "map flight_sort_key out = map flight_sort_key (sort_flights flights)"
    unfolding out by (rule enrich_routes_map_frame) (rule flight_sort_key_frame)
  then show ?thesis
    by (simp add: sort_flights_def)
qed

lemma geodesic_at_origin: "haversine 0 0 0 0 = 0" "bearing 0 0 0 0 = 0"
  by (simp_all add: haversine_def bearing_def radians_def degrees_def atan2_def py_fmod_def)

text \<open>
  Claim C4. The list the fetcher returns is in ascending order of distance, a missing
  distance counting as 1000000000, and records at the same distance are in descending
  order of altitude, a missing altitude counting as 0. The sort keeps every record. Records
  at 50, 10 and 10 km with altitudes 1000, 2000 and 5000 ft come out as 10/5000, 10/2000,
  50/1000.
\<close>

theorem returned_flights_sorted:
  "(fst (get_flights s adsb client now lat_arg lon_arg r st) = Inr out \<longrightarrow>
      sorted_wrt
        (\<lambda>f g. (case distance_km f of None \<Rightarrow> 1000000000 | Some d \<Rightarrow> d)
                  < (case distance_km g of None \<Rightarrow> 1000000000 | Some d \<Rightarrow> d)
               \<or> (case distance_km f of None \<Rightarrow> 1000000000 | Some d \<Rightarrow> d)
                  = (case distance_km g of None \<Rightarrow> 1000000000 | Some d \<Rightarrow> d)
                 \<and> (case altitude_ft g of None \<Rightarrow> 0 | Some a \<Rightarrow> a)
                    \<le> (case altitude_ft f of None \<Rightarrow> 0 | Some a \<Rightarrow> a)) out)
   \<and> sorted_wrt
        (\<lambda>f g. (case distance_km f of None \<Rightarrow> 1000000000 | Some d \<Rightarrow> d)
                  < (case distance_km g of None \<Rightarrow> 1000000000 | Some d \<Rightarrow> d)
               \<or> (case distance_km f of None \<Rightarrow> 1000000000 | Some d \<Rightarrow> d)
                  = (case distance_km g of None \<Rightarrow> 1000000000 | Some d \<Rightarrow> d)
                 \<and> (case altitude_ft g of None \<Rightarrow> 0 | Some a \<Rightarrow> a)
                    \<le> (case altitude_ft f of None \<Rightarrow> 0 | Some a \<Rightarrow> a)) (sort_flights fs)
   \<and> mset (sort_flights fs) = mset fs
   \<and> sort_flights [measured_flight ''A'' 50 1000, measured_flight ''B'' 10 2000,
                    measured_flight ''C'' 10 5000]
       = [measured_flight ''C'' 10 5000, measured_flight ''B'' 10 2000,
          measured_flight ''A'' 50 1000]"
proof (intro conjI impI)
  assume "fst (get_flights s adsb client now lat_arg lon_arg r st) = Inr out"
  then have "sorted (map flight_sort_key out)"
    by (rule get_flights_keys_sorted)
  then show "sorted_wrt
        (\<lambda>f g. (case distance_km f of None \<Rightarrow> 1000000000 | Some d \<Rightarrow> d)
                  < (case distance_km g of None \<Rightarrow> 1000000000 | Some d \<Rightarrow> d)
               \<or> (case distance_km f of None \<Rightarrow> 1000000000 | Some d \<Rightarrow> d)
                  = (case distance_km g of None \<Rightarrow> 1000000000 | Some d \<Rightarrow> d)
                 \<and> (case altitude_ft g of None \<Rightarrow> 0 | Some a \<Rightarrow> a)
                    \<le> (case altitude_ft f of None \<Rightarrow> 0 | Some a \<Rightarrow> a)) out"
    by (rule sorted_keys_explicit)
next
  have "sorted (map flight_sort_key (sort_flights fs))"
    by (simp add: sort_flights_def)
  then show "sorted_wrt
        (\<lambda>f g. (case distance_km f of None \<Rightarrow> 1000000000 | Some d \<Rightarrow> d)
                  < (case distance_km g of None \<Rightarrow> 1000000000 | Some d \<Rightarrow> d)
               \<or> (case distance_km f of None \<Rightarrow> 1000000000 | Some d \<Rightarrow> d)
                  = (case distance_km g of None \<Rightarrow> 1000000000 | Some d \<Rightarrow> d)
                 \<and> (case altitude_ft g of None \<Rightarrow> 0 | Some a \<Rightarrow> a)
                    \<le> (case altitude_ft f of None \<Rightarrow> 0 | Some a \<Rightarrow> a)) (sort_flights fs)"
    by (rule sorted_keys_explicit)
next
  show "mset (sort_flights fs) = mset fs"
    by (simp add: sort_flights_def)
next
  show "sort_flights [measured_flight ''A'' 50 1000, measured_flight ''B'' 10 2000,
                    measured_flight ''C'' 10 5000]
       = [measured_flight ''C'' 10 5000, measured_flight ''B'' 10 2000,
          measured_flight ''A'' 50 1000]"
    by (simp add: sort_flights_def flight_sort_key_def measured_flight_def)
qed

theorem returned_flights_sorted_witness:
  "fst (get_flights default_settings two_at_centre timeout_client 7 (Some 0) (Some 0) None
          fresh_state)
     = Inr [centre_record ''DAL1'' ''Delta'' 5000, centre_record ''UAL2'' ''United'' 2000]
   \<and> sorted_wrt
        (\<lambda>f g. (case distance_km f of None \<Rightarrow> 1000000000 | Some d \<Rightarrow> d)
                  < (case distance_km g of None \<Rightarrow> 1000000000 | Some d \<Rightarrow> d)
               \<or> (case distance_km f of None \<Rightarrow> 1000000000 | Some d \<Rightarrow> d)
                  = (case distance_km g of None \<Rightarrow> 1000000000 | Some d \<Rightarrow> d)
                 \<and> (case altitude_ft g of None \<Rightarrow> 0 | Some a \<Rightarrow> a)
                    \<le> (case altitude_ft f of None \<Rightarrow> 0 | Some a \<Rightarrow> a))
        [centre_record ''DAL1'' ''Delta'' 5000, centre_record ''UAL2'' ''United'' 2000]"
proof -
  have q: "q_lat (adsb_query default_settings (Some 0) (Some 0) None) = 0"
    "q_lon (adsb_query default_settings (Some 0) (Some 0) None) = 0"
    by (simp_all add: adsb_query_def resolve_center_def)
  have names: "strip ''UAL2'' = ''UAL2''" "strip ''DAL1'' = ''DAL1''"
    "get_airline_from_callsign ''UAL2'' = Some ''United''"
    "get_airline_from_callsign ''DAL1'' = Some ''Delta''"
    by code_simp+
  have types: "get_aircraft_type [(''flight'', JStr ''UAL2''), (''lat'', JInt 0), (''lon'', JInt 0),
              (''alt_baro'', JInt 2000)] = None"
    "get_aircraft_type [(''flight'', JStr ''DAL1''), (''lat'', JInt 0), (''lon'', JInt 0),
              (''alt_baro'', JInt 5000)] = None"
    by (rule get_aircraft_type_missing; simp)+
  have e1: "flight_of_entry 0 0 7
      (JObj [(''flight'', JStr ''UAL2''), (''lat'', JInt 0), (''lon'', JInt 0),
              (''alt_baro'', JInt 2000)]) = Inr (Some (centre_record ''UAL2'' ''United'' 2000))"
    by (simp add: flight_of_entry_def Let_def dict_get_def names types geodesic_at_origin
        centre_record_def)
  have e2: "flight_of_entry 0 0 7
      (JObj [(''flight'', JStr ''DAL1''), (''lat'', JInt 0), (''lon'', JInt 0),
              (''alt_baro'', JInt 5000)]) = Inr (Some (centre_record ''DAL1'' ''Delta'' 5000))"
    by (simp add: flight_of_entry_def Let_def dict_get_def names types geodesic_at_origin
        centre_record_def)
  have sorted: "sort_flights [centre_record ''UAL2'' ''United'' 2000,
        centre_record ''DAL1'' ''Delta'' 5000]
      = [centre_record ''DAL1'' ''Delta'' 5000, centre_record ''UAL2'' ''United'' 2000]"
    by (simp add: sort_flights_def flight_sort_key_def centre_record_def)
  have keys: "cache_key (centre_record ''DAL1'' ''Delta'' 5000) = ''DAL1''"
    "cache_key (centre_record ''UAL2'' ''United'' 2000) = ''UAL2''"
    by (simp_all add: cache_key_def centre_record_def sample_keys)
  have unset: "\<not> is_set (origin (centre_record cs al a))"
    "\<not> is_set (destination (centre_record cs al a))" for cs al a
    by (simp_all add: centre_record_def is_set_def)
  have enriched: "fst (enrich_routes_adsbdb default_settings timeout_client
        [centre_record ''DAL1'' ''Delta'' 5000, centre_record ''UAL2'' ''United'' 2000] fresh_state)
      = [centre_record ''DAL1'' ''Delta'' 5000, centre_record ''UAL2'' ''United'' 2000]"
    by (simp add: enrich_routes_adsbdb_def default_settings_def enrich_one_def keys unset Let_def
        fresh_state_def timeout_client_def route_lookup_def)
  have run: "fst (get_flights default_settings two_at_centre timeout_client 7 (Some 0) (Some 0) None
          fresh_state)
     = Inr [centre_record ''DAL1'' ''Delta'' 5000, centre_record ''UAL2'' ''United'' 2000]"
    by (simp add: get_flights_def Let_def q two_at_centre_def fetch_aircraft_def is_success_def
        aircraft_list_of_def py_iter_def e1 e2 sorted split_beta enriched)
  from run returned_flights_sorted
    [where s = default_settings and adsb = two_at_centre and client = timeout_client
      and now = 7 and lat_arg = "Some 0" and lon_arg = "Some 0" and r = None
      and st = fresh_state
      and out = "[centre_record ''DAL1'' ''Delta'' 5000, centre_record ''UAL2'' ''United'' 2000]"
      and fs = "[]"]
  show ?thesis
    by blast
qed


end
